theory Spec2Isabelle
  imports Complex_Main
begin

section \<open>Data model\<close>

text \<open>
  The C++ sources work on \<^verbatim>\<open>double\<close> values; they are modelled as exact reals, so
  every statement below is about exact arithmetic.  Sizes and counters (\<^verbatim>\<open>size_t\<close>,
  \<^verbatim>\<open>int\<close>) are natural numbers or integers; the statements below never reach the
  range where a 32-bit \<^verbatim>\<open>int\<close> would wrap.
\<close>

datatype error =
  runtime_error string
  | null_dereference
  | undefined_conversion

text \<open>\<^verbatim>\<open>wrench::DataFile\<close>: an identifier and a size in bytes.\<close>

record DataFile =
  file_id :: string
  file_size :: real

text \<open>
  \<^verbatim>\<open>Dataset\<close> is declared in \<^verbatim>\<open>Dataset.h\<close>; \<^verbatim>\<open>assignFiles\<close> reads its fields
  \<^verbatim>\<open>name\<close> and \<^verbatim>\<open>files\<close> only.
\<close>

record Dataset =
  name :: string
  files :: "DataFile list"

record JobSpecification =
  jobid :: string
  cores :: int
  total_flops :: real
  total_mem :: real
  outfile :: DataFile
  infiles :: "DataFile list"

text \<open>
  The random number generator \<^verbatim>\<open>std::mt19937\<close> and the distribution objects drawing
  from it are library code.  A generator state is a value of an abstract type \<open>'g\<close>,
  and a distribution is a function from a generator state to the value drawn and the
  state after the draw.
\<close>

type_synonym ('g, 'a) distribution = "'g \<Rightarrow> 'a \<times> 'g"

text \<open>
  The members of \<^verbatim>\<open>Workload\<close> that \<^verbatim>\<open>sampleJob\<close> and \<^verbatim>\<open>assignFiles\<close> read
  and write.
\<close>

record 'g Workload =
  generator :: 'g
  core_dist :: "('g, int) distribution"
  flops_dist :: "('g, real) distribution"
  mem_dist :: "('g, real) distribution"
  outsize_dist :: "('g, real) distribution"
  job_batch :: "JobSpecification list"
  infile_datasets :: "string list"

section \<open>Workload.cpp: assignFiles\<close>

text \<open>
  \<^verbatim>\<open>transform_if(first, last, dest, pred, transform)\<close>: the while loop over the input
  range, appending \<^verbatim>\<open>transform(*first)\<close> to the destination when the predicate holds.
\<close>

fun transform_if :: "'a list \<Rightarrow> 'b list \<Rightarrow> ('a \<Rightarrow> bool) \<Rightarrow> ('a \<Rightarrow> 'b) \<Rightarrow> 'b list" where
  "transform_if [] dest pred transform = dest"
| "transform_if (x # xs) dest pred transform =
     transform_if xs (if pred x then dest @ [transform x] else dest) pred transform"

text \<open>\<^verbatim>\<open>std::copy(..., std::back_inserter(job_batch[j].infiles))\<close>.\<close>

definition append_infiles :: "JobSpecification \<Rightarrow> DataFile list \<Rightarrow> JobSpecification" where
  "append_infiles job fs = job\<lparr>infiles := infiles job @ fs\<rparr>"

text \<open>
  The loop \<^verbatim>\<open>for (auto j = 0; j < num_jobs; ++j)\<close> of \<^verbatim>\<open>assignFiles\<close>.
  \<^verbatim>\<open>std::distance(beg_it, all_files.end())\<close> is the signed difference
  \<open>num_files - j * k\<close>; the first branch ends the loop (\<^verbatim>\<open>break\<close>).
\<close>

function assign_loop ::
  "DataFile list \<Rightarrow> nat \<Rightarrow> nat \<Rightarrow> nat \<Rightarrow> JobSpecification list \<Rightarrow> JobSpecification list" where
  "assign_loop all_files k num_jobs j batch =
     (if j < num_jobs then
        (if int (length all_files) - int (j * k) < int k
         then batch[j := append_infiles (batch ! j) (drop (j * k) all_files)]
         else assign_loop all_files k num_jobs (Suc j)
                (batch[j := append_infiles (batch ! j) (take k (drop (j * k) all_files))]))
      else batch)"
  by pat_completeness auto
termination
  by (relation "measure (\<lambda>(all_files, k, num_jobs, j, batch). num_jobs - j)") auto

declare assign_loop.simps [simp del]

definition assignFiles :: "'g Workload \<Rightarrow> Dataset list \<Rightarrow> error + 'g Workload" where
  "assignFiles w dataset_specs =
     (let matching_ds =
            transform_if dataset_specs [] (\<lambda>ds. name ds \<in> set (infile_datasets w)) (\<lambda>ds. ds)
      in if matching_ds = []
         then Inl (runtime_error ''ERROR: no valid infile dataset name in workload configuration.'')
         else
           let num_files = foldl (\<lambda>sum ds. sum + length (files ds)) 0 matching_ds;
               all_files = concat (map files matching_ds);
               num_jobs = length (job_batch w)
           in if num_jobs = 0 then Inr w
              else
                let k = num_files div num_jobs
                in Inr (w\<lparr>job_batch := assign_loop all_files k num_jobs 0 (job_batch w)\<rparr>))"

text \<open>The pool: the files of the matching datasets, in the order of the datasets.\<close>

definition pool :: "Dataset list \<Rightarrow> string list \<Rightarrow> DataFile list" where
  "pool dataset_specs names =
     concat (map files (filter (\<lambda>ds. name ds \<in> set names) dataset_specs))"

section \<open>Rejection resampling\<close>

text \<open>
  The loop \<^verbatim>\<open>while (reject(x)) x = distr(generator);\<close>.  It has no bound in the source,
  so it is a partial function: \<open>None\<close> is the loop that never ends.
\<close>

partial_function (option) resample ::
  "('a \<Rightarrow> bool) \<Rightarrow> ('g, 'a) distribution \<Rightarrow> 'a \<Rightarrow> 'g \<Rightarrow> ('a \<times> 'g) option" where
  "resample reject distr x gen =
     (if reject x then resample reject distr (fst (distr gen)) (snd (distr gen))
      else Some (x, gen))"

text \<open>
  The first draw followed by the loop:
  \<^verbatim>\<open>double x = distr(generator); while (reject(x)) x = distr(generator);\<close>
\<close>

definition sample_while :: "('a \<Rightarrow> bool) \<Rightarrow> ('g, 'a) distribution \<Rightarrow> 'g \<Rightarrow> ('a \<times> 'g) option" where
  "sample_while reject distr gen = resample reject distr (fst (distr gen)) (snd (distr gen))"

text \<open>The generator state after \<open>n\<close> draws, and the value of the draw after them.\<close>

definition gen_after :: "('g, 'a) distribution \<Rightarrow> nat \<Rightarrow> 'g \<Rightarrow> 'g" where
  "gen_after distr n gen = ((\<lambda>g. snd (distr g)) ^^ n) gen"

definition nth_draw :: "('g, 'a) distribution \<Rightarrow> nat \<Rightarrow> 'g \<Rightarrow> 'a" where
  "nth_draw distr n gen = fst (distr (gen_after distr n gen))"

section \<open>Workload.cpp: sampleJob\<close>

text \<open>\<^verbatim>\<open>std::to_string\<close> of an unsigned number: its decimal digits.\<close>

definition digit_char :: "nat \<Rightarrow> char" where
  "digit_char d = ''0123456789'' ! d"

fun to_string :: "nat \<Rightarrow> string" where
  "to_string n =
     (if n < 10 then [digit_char n] else to_string (n div 10) @ [digit_char (n mod 10)])"

declare to_string.simps [simp del]


section \<open>SimpleSimulator.cpp: fill_streaming_workflow\<close>

text \<open>
  \<^verbatim>\<open>wrench::Workflow\<close> is the simulator library's task graph.  The builder only adds
  to it: tasks, files, and control dependencies.  A task pointer is modelled as the
  position of the task in the order of creation, a null pointer as \<open>None\<close>.
\<close>

record WorkflowTask =
  task_id :: string
  task_flops :: real
  min_num_cores :: nat
  max_num_cores :: nat
  memory_requirement :: real
  input_files :: "DataFile list"
  output_files :: "DataFile list"

record Workflow =
  wf_tasks :: "WorkflowTask list"
  wf_files :: "DataFile list"
  wf_deps :: "(nat \<times> nat) list"

definition addTask :: "Workflow \<Rightarrow> string \<Rightarrow> real \<Rightarrow> nat \<Rightarrow> nat \<Rightarrow> real \<Rightarrow> Workflow \<times> nat" where
  "addTask wfl tid fl cmin cmax mem =
     (wfl\<lparr>wf_tasks := wf_tasks wfl @
           [\<lparr>task_id = tid, task_flops = fl, min_num_cores = cmin, max_num_cores = cmax,
             memory_requirement = mem, input_files = [], output_files = []\<rparr>]\<rparr>,
      length (wf_tasks wfl))"

definition addFile :: "Workflow \<Rightarrow> string \<Rightarrow> real \<Rightarrow> Workflow \<times> DataFile" where
  "addFile wfl fid sz =
     (wfl\<lparr>wf_files := wf_files wfl @ [\<lparr>file_id = fid, file_size = sz\<rparr>]\<rparr>,
      \<lparr>file_id = fid, file_size = sz\<rparr>)"

definition addInputFile :: "Workflow \<Rightarrow> nat \<Rightarrow> DataFile \<Rightarrow> Workflow" where
  "addInputFile wfl t file =
     wfl\<lparr>wf_tasks := (wf_tasks wfl)
           [t := (wf_tasks wfl ! t)\<lparr>input_files := input_files (wf_tasks wfl ! t) @ [file]\<rparr>]\<rparr>"

definition addOutputFile :: "Workflow \<Rightarrow> nat \<Rightarrow> DataFile \<Rightarrow> Workflow" where
  "addOutputFile wfl t file =
     wfl\<lparr>wf_tasks := (wf_tasks wfl)
           [t := (wf_tasks wfl ! t)\<lparr>output_files := output_files (wf_tasks wfl ! t) @ [file]\<rparr>]\<rparr>"

definition addControlDependency :: "Workflow \<Rightarrow> nat \<Rightarrow> nat \<Rightarrow> Workflow" where
  "addControlDependency wfl parent child = wfl\<lparr>wf_deps := wf_deps wfl @ [(parent, child)]\<rparr>"

text \<open>
  \<^verbatim>\<open>static_cast<size_t>(dinsize/xrd_block_size)\<close>: the conversion truncates towards
  zero and is defined only when the truncated value fits \<^verbatim>\<open>size_t\<close>; a division by
  zero gives an infinity or a NaN, which do not fit.
\<close>

definition double_to_size_t :: "real \<Rightarrow> nat option" where
  "double_to_size_t d = (if - 1 < d \<and> d < 2 ^ 64 then Some (nat \<lfloor>d\<rfloor>) else None)"

definition quotient_to_size_t :: "real \<Rightarrow> real \<Rightarrow> nat option" where
  "quotient_to_size_t x y = (if y = 0 then None else double_to_size_t (x / y))"

text \<open>The common part \<^verbatim>\<open>std::to_string(j)+"_file_"+std::to_string(f)+"_block_"+std::to_string(b)\<close> of the names.\<close>

definition block_name :: "nat \<Rightarrow> nat \<Rightarrow> nat \<Rightarrow> string" where
  "block_name j f b = to_string j @ ''_file_'' @ to_string f @ ''_block_'' @ to_string b"

text \<open>
  The statements that create one block: the dummy task with its input block and its
  dependency on the previous dummy task, then the task with its dependencies on the dummy
  task and on the previous task.  The source has them twice, in the loop over the full
  blocks (lines 145 to 158) and for the last, shorter block (lines 169 to 179).
\<close>

definition add_block ::
  "Workflow \<Rightarrow> nat \<Rightarrow> nat \<Rightarrow> nat \<Rightarrow> real \<Rightarrow> real \<Rightarrow> real \<Rightarrow> real \<Rightarrow> real \<Rightarrow>
   nat option \<Rightarrow> nat option \<Rightarrow> Workflow \<times> nat \<times> nat" where
  "add_block wfl j f b blocksize dinsize dflops dmem dummy_flops dummytask_parent task_parent =
     (let (wf1, dummytask) = addTask wfl (''dummytask_'' @ block_name j f b) dummy_flops 1 1 dummy_flops;
          (wf2, infile) = addFile wf1 (''infile_'' @ block_name j f b) blocksize;
          wf3 = addInputFile wf2 dummytask infile;
          wf4 = (case dummytask_parent of
                   Some p \<Rightarrow> addControlDependency wf3 p dummytask
                 | None \<Rightarrow> wf3);
          blockflops = dflops * blocksize / dinsize;
          (wf5, task) = addTask wf4 (''task_'' @ block_name j f b) blockflops 1 1 dmem;
          wf6 = addControlDependency wf5 dummytask task;
          wf7 = (case task_parent of
                   Some p \<Rightarrow> addControlDependency wf6 p task
                 | None \<Rightarrow> wf6)
      in (wf7, dummytask, task))"

text \<open>The local variables of the loop over the blocks of one input file.\<close>

record chain =
  workflow :: Workflow
  dummytask_parent :: "nat option"
  task_parent :: "nat option"
  enddummytask :: "nat option"
  endtask :: "nat option"

text \<open>
  The body of \<^verbatim>\<open>for (size_t b = 0; b < nblocks; b++)\<close>.  Inside the loop
  \<open>nblocks\<close> is positive, so \<^verbatim>\<open>nblocks-1\<close> does not wrap.
\<close>

definition block_step ::
  "nat \<Rightarrow> nat \<Rightarrow> real \<Rightarrow> real \<Rightarrow> real \<Rightarrow> real \<Rightarrow> real \<Rightarrow> nat \<Rightarrow> nat \<Rightarrow> chain \<Rightarrow> chain" where
  "block_step j f dinsize xrd_block_size dflops dmem dummy_flops nblocks b st =
     (let (wf', dummytask, task) =
            add_block (workflow st) j f b xrd_block_size dinsize dflops dmem dummy_flops
              (dummytask_parent st) (task_parent st);
          st' = st\<lparr>workflow := wf', dummytask_parent := Some dummytask, task_parent := Some task\<rparr>
      in if b = nblocks - 1
         then st'\<lparr>enddummytask := Some dummytask, endtask := Some task\<rparr>
         else st')"

text \<open>
  Lines 134 to 165: the parents of the first block are the end tasks of the previous
  input file when both exist, then the loop over the full blocks runs.
\<close>

definition block_loop ::
  "nat \<Rightarrow> nat \<Rightarrow> real \<Rightarrow> real \<Rightarrow> real \<Rightarrow> real \<Rightarrow> real \<Rightarrow> nat \<Rightarrow>
   Workflow \<times> nat option \<times> nat option \<Rightarrow> chain" where
  "block_loop j f dinsize xrd_block_size dflops dmem dummy_flops nblocks s =
     (case s of (wfl, enddummytask0, endtask0) \<Rightarrow>
        fold (block_step j f dinsize xrd_block_size dflops dmem dummy_flops nblocks)
          [0..<nblocks]
          \<lparr>workflow = wfl,
            dummytask_parent =
              (if enddummytask0 \<noteq> None \<and> endtask0 \<noteq> None then enddummytask0 else None),
            task_parent =
              (if enddummytask0 \<noteq> None \<and> endtask0 \<noteq> None then endtask0 else None),
            enddummytask = enddummytask0,
            endtask = endtask0\<rparr>)"

text \<open>
  Lines 168 to 182: when the file size is not a multiple of the block size, one more
  block takes the rest and becomes the end of the chains.
\<close>

definition last_block ::
  "nat \<Rightarrow> nat \<Rightarrow> real \<Rightarrow> real \<Rightarrow> real \<Rightarrow> real \<Rightarrow> real \<Rightarrow> nat \<Rightarrow>
   chain \<Rightarrow> Workflow \<times> nat option \<times> nat option" where
  "last_block j f dinsize xrd_block_size dflops dmem dummy_flops nblocks st =
     (let blocksize = dinsize - real nblocks * xrd_block_size
      in if blocksize \<noteq> 0
         then
           let (wf', dummytask, task) =
                 add_block (workflow st) j f nblocks blocksize dinsize dflops dmem
                   dummy_flops (dummytask_parent st) (task_parent st)
           in (wf', Some dummytask, Some task)
         else (workflow st, enddummytask st, endtask st))"

text \<open>
  The body of \<^verbatim>\<open>for (size_t f = 0; f < infiles_per_task; f++)\<close> after the file size
  \<open>dinsize\<close> has been drawn.  The parameter \<^verbatim>\<open>xrd_block_size\<close> is overwritten with
  the file size for every file when blockwise streaming is off and never otherwise, so
  the block size in use is computed from the parameter here.
\<close>

definition stream_file ::
  "bool \<Rightarrow> real \<Rightarrow> real \<Rightarrow> nat \<Rightarrow> real \<Rightarrow> real \<Rightarrow> nat \<Rightarrow> real \<Rightarrow>
   Workflow \<times> nat option \<times> nat option \<Rightarrow> error + Workflow \<times> nat option \<times> nat option" where
  "stream_file use_blockstreaming block_size_arg dummy_flops j dflops dmem f dinsize s =
     (let xrd_block_size = (if \<not> use_blockstreaming then dinsize else block_size_arg)
      in case quotient_to_size_t dinsize xrd_block_size of
           None \<Rightarrow> Inl undefined_conversion
         | Some nblocks \<Rightarrow>
             Inr (last_block j f dinsize xrd_block_size dflops dmem dummy_flops nblocks
                    (block_loop j f dinsize xrd_block_size dflops dmem dummy_flops nblocks s)))"

text \<open>
  A loop whose body can fail or not return: \<open>None\<close> is a run that never ends,
  \<open>Some (Inl e)\<close> a run that stops with the error \<open>e\<close>.
\<close>

primrec for_each :: "nat list \<Rightarrow> (nat \<Rightarrow> 's \<Rightarrow> (error + 's) option) \<Rightarrow> 's \<Rightarrow> (error + 's) option" where
  "for_each [] body s = Some (Inr s)"
| "for_each (i # is) body s =
     (case body i s of
        None \<Rightarrow> None
      | Some (Inl e) \<Rightarrow> Some (Inl e)
      | Some (Inr s') \<Rightarrow> for_each is body s')"

text \<open>One turn of the loop over the input files: draw the size, then build the blocks.\<close>

definition file_body ::
  "('g, real) distribution \<Rightarrow> bool \<Rightarrow> real \<Rightarrow> real \<Rightarrow> nat \<Rightarrow> real \<Rightarrow> real \<Rightarrow> nat \<Rightarrow>
   (Workflow \<times> nat option \<times> nat option) \<times> 'g \<Rightarrow>
   (error + (Workflow \<times> nat option \<times> nat option) \<times> 'g) option" where
  "file_body insize use_blockstreaming block_size_arg dummy_flops j dflops dmem f s =
     (case s of (ws, gen) \<Rightarrow>
       (case sample_while (\<lambda>dinsize. dinsize < 0) insize gen of
          None \<Rightarrow> None
        | Some (dinsize, gen') \<Rightarrow>
            (case stream_file use_blockstreaming block_size_arg dummy_flops j dflops dmem f dinsize ws of
               Inl e \<Rightarrow> Some (Inl e)
             | Inr ws' \<Rightarrow> Some (Inr (ws', gen')))))"

text \<open>
  Line 184: \<^verbatim>\<open>endtask->addOutputFile(workflow->addFile("outfile_"+std::to_string(j), 0.0))\<close>.
  The call through a null \<^verbatim>\<open>endtask\<close> is an error.
\<close>

definition attach_outfile :: "Workflow \<Rightarrow> nat \<Rightarrow> nat option \<Rightarrow> error + Workflow" where
  "attach_outfile wfl j endtask0 =
     (case endtask0 of
        None \<Rightarrow> Inl null_dereference
      | Some t \<Rightarrow>
          let (wf', outf) = addFile wfl (''outfile_'' @ to_string j) 0
          in Inr (addOutputFile wf' t outf))"

text \<open>One turn of the loop over the jobs.\<close>

definition job_body ::
  "nat \<Rightarrow> ('g, real) distribution \<Rightarrow> ('g, real) distribution \<Rightarrow> ('g, real) distribution \<Rightarrow> bool \<Rightarrow> real \<Rightarrow> real \<Rightarrow>
   nat \<Rightarrow> Workflow \<times> 'g \<Rightarrow> (error + Workflow \<times> 'g) option" where
  "job_body infiles_per_task flops mem insize use_blockstreaming block_size_arg dummy_flops j s =
     (case s of (wfl, gen) \<Rightarrow>
     (case sample_while (\<lambda>dflops. dflops < 0) flops gen of
        None \<Rightarrow> None
      | Some (dflops, gen1) \<Rightarrow>
     (case sample_while (\<lambda>dmem. dmem < 0) mem gen1 of
        None \<Rightarrow> None
      | Some (dmem, gen2) \<Rightarrow>
     (case for_each [0..<infiles_per_task]
             (file_body insize use_blockstreaming block_size_arg dummy_flops j dflops dmem)
             ((wfl, None, None), gen2) of
        None \<Rightarrow> None
      | Some (Inl e) \<Rightarrow> Some (Inl e)
      | Some (Inr ((wf', enddummytask', endtask'), gen3)) \<Rightarrow>
          (case attach_outfile wf' j endtask' of
             Inl e \<Rightarrow> Some (Inl e)
           | Inr wf'' \<Rightarrow> Some (Inr (wf'', gen3)))))))"

text \<open>
  \<^verbatim>\<open>fill_streaming_workflow\<close>.  The three normal distributions that the source builds
  from its average and sigma arguments are the arguments \<open>flops\<close>, \<open>mem\<close> and
  \<open>insize\<close>; the global generator \<^verbatim>\<open>gen\<close> is passed in and returned.
\<close>

definition fill_streaming_workflow ::
  "Workflow \<Rightarrow> nat \<Rightarrow> nat \<Rightarrow> ('g, real) distribution \<Rightarrow> ('g, real) distribution \<Rightarrow> ('g, real) distribution \<Rightarrow>
   bool \<Rightarrow> real \<Rightarrow> real \<Rightarrow> 'g \<Rightarrow> (error + Workflow \<times> 'g) option" where
  "fill_streaming_workflow wfl num_jobs infiles_per_task flops mem insize
     use_blockstreaming xrd_block_size dummy_flops gen =
     for_each [0..<num_jobs]
       (job_body infiles_per_task flops mem insize use_blockstreaming xrd_block_size dummy_flops)
       (wfl, gen)"

section \<open>SimpleSimulator.cpp: staging the input files\<close>

text \<open>
  A storage service is known by the name of its host.  \<^verbatim>\<open>simulation->stageFile(f, s)\<close>
  records that the file \<open>f\<close> is on the storage service \<open>s\<close>.
\<close>

type_synonym StorageService = string

type_synonym staging = "(DataFile \<times> StorageService) list"

definition stageFile :: "staging \<Rightarrow> DataFile \<Rightarrow> StorageService \<Rightarrow> staging" where
  "stageFile staged f s = staged @ [(f, s)]"

text \<open>
  Lines 376 to 385: the loop over the shuffled input files of one task, with the running
  sum \<^verbatim>\<open>cached_files_size\<close>.
\<close>

fun stage_loop ::
  "StorageService \<Rightarrow> StorageService list \<Rightarrow> real \<Rightarrow> real \<Rightarrow> DataFile list \<Rightarrow> real \<Rightarrow>
   staging \<Rightarrow> staging" where
  "stage_loop remote caches hitrate incr_inputfile_size [] cached_files_size staged = staged"
| "stage_loop remote caches hitrate incr_inputfile_size (f # fs) cached_files_size staged =
     (let staged1 = stageFile staged f remote
      in if cached_files_size \<le> hitrate * incr_inputfile_size
         then stage_loop remote caches hitrate incr_inputfile_size fs
                (cached_files_size + file_size f)
                (fold (\<lambda>cache st. stageFile st f cache) caches staged1)
         else stage_loop remote caches hitrate incr_inputfile_size fs cached_files_size staged1)"

text \<open>
  Lines 367 to 385 for one task: \<^verbatim>\<open>std::shuffle\<close> is library code, a function from
  the list and the generator state to the permuted list and the state after it.
\<close>

definition stage_task ::
  "(DataFile list \<Rightarrow> 'g \<Rightarrow> DataFile list \<times> 'g) \<Rightarrow> StorageService \<Rightarrow> StorageService list \<Rightarrow>
   real \<Rightarrow> WorkflowTask \<Rightarrow> staging \<times> 'g \<Rightarrow> staging \<times> 'g" where
  "stage_task shuffle remote caches hitrate task s =
     (case s of (staged, gen) \<Rightarrow>
      let (shuffled, gen') = shuffle (input_files task) gen;
          incr_inputfile_size = fold (\<lambda>f sum. sum + file_size f) shuffled 0
      in (stage_loop remote caches hitrate incr_inputfile_size shuffled 0 staged, gen'))"

text \<open>
  Lines 357 to 386: exactly one remote storage service is required, then every task of
  the workflow is staged in turn, here in the order of creation.  The set of cache
  storage services is given as a list; exceptions of the simulator's \<^verbatim>\<open>stageFile\<close>
  are not modelled.
\<close>

definition stage_input_files ::
  "(DataFile list \<Rightarrow> 'g \<Rightarrow> DataFile list \<times> 'g) \<Rightarrow> StorageService list \<Rightarrow> StorageService list \<Rightarrow>
   real \<Rightarrow> Workflow \<Rightarrow> 'g \<Rightarrow> error + staging \<times> 'g" where
  "stage_input_files shuffle remote_storage_services cache_storage_services hitrate wfl gen =
     (if length remote_storage_services \<noteq> 1
      then Inl (runtime_error
                  ''This example Simple Simulator requires a single remote_storage_service'')
      else Inr (fold (stage_task shuffle (hd remote_storage_services) cache_storage_services hitrate)
                  (wf_tasks wfl) ([], gen)))"

section \<open>The dual-chain rule\<close>

text \<open>
  A block is known by the number of its job, the number of its input file in the job and
  its number in the file.  A layout lists the blocks of a workflow in the order of their
  creation; block \<open>i\<close> of a layout has the dummy task \<open>2 * i\<close> and the task
  \<open>2 * i + 1\<close>, named after the block.
\<close>

type_synonym block = "nat \<times> nat \<times> nat"

definition block_task_ids :: "block \<Rightarrow> string list" where
  "block_task_ids blk =
     (case blk of (j, f, b) \<Rightarrow> [''dummytask_'' @ block_name j f b, ''task_'' @ block_name j f b])"

text \<open>
  The dependencies that the builder adds for block \<open>i\<close>: when the previous block is of
  the same job, the dummy task follows the previous dummy task and the task follows the
  previous task; the task always follows its own dummy task.
\<close>

definition linked :: "block list \<Rightarrow> nat \<Rightarrow> bool" where
  "linked layout i \<longleftrightarrow> 0 < i \<and> fst (layout ! (i - 1)) = fst (layout ! i)"

definition block_deps :: "block list \<Rightarrow> nat \<Rightarrow> (nat \<times> nat) list" where
  "block_deps layout i =
     (if linked layout i then [(2 * i - 2, 2 * i)] else [])
     @ [(2 * i, 2 * i + 1)]
     @ (if linked layout i then [(2 * i - 1, 2 * i + 1)] else [])"

definition dual_chain_deps :: "block list \<Rightarrow> (nat \<times> nat) list" where
  "dual_chain_deps layout = concat (map (block_deps layout) [0..<length layout])"

text \<open>
  The invariant of the builder: the tasks and the dependencies of the workflow are those
  of a layout, and the end tasks of job \<open>j\<close> are the tasks of its last block, if any.
\<close>

definition represents :: "block list \<Rightarrow> Workflow \<Rightarrow> bool" where
  "represents layout wfl \<longleftrightarrow>
     map task_id (wf_tasks wfl) = concat (map block_task_ids layout)
     \<and> wf_deps wfl = dual_chain_deps layout"

definition end_dummy :: "block list \<Rightarrow> nat \<Rightarrow> nat option" where
  "end_dummy layout j =
     (if layout \<noteq> [] \<and> fst (last layout) = j then Some (2 * length layout - 2) else None)"

definition end_task :: "block list \<Rightarrow> nat \<Rightarrow> nat option" where
  "end_task layout j =
     (if layout \<noteq> [] \<and> fst (last layout) = j then Some (2 * length layout - 1) else None)"

text \<open>
  A layout is well formed when block 0 of a file comes first in the layout or after a
  block of an earlier job or of an earlier file of the same job, and every other block
  comes right after the previous block of the same file.
\<close>

definition precedes :: "block \<Rightarrow> nat \<Rightarrow> nat \<Rightarrow> bool" where
  "precedes blk j f \<longleftrightarrow> fst blk < j \<or> (fst blk = j \<and> fst (snd blk) < f)"

definition layout_ok :: "block list \<Rightarrow> bool" where
  "layout_ok layout \<longleftrightarrow>
     (\<forall>i < length layout.
        case layout ! i of (j, f, b) \<Rightarrow>
          if b = 0 then (0 < i \<longrightarrow> precedes (layout ! (i - 1)) j f)
          else 0 < i \<and> layout ! (i - 1) = (j, f, b - 1))"

text \<open>
  The predecessors of a task in the workflow, and the dual-chain rule as the specification
  words it for the task of block \<open>i\<close>: its own dummy task, the task of the previous
  block of the same file, and at the first block of a file the last task of the previous
  file of the job, when there is one.
\<close>

definition predecessors :: "Workflow \<Rightarrow> nat \<Rightarrow> nat set" where
  "predecessors wfl c = set (map fst (filter (\<lambda>e. snd e = c) (wf_deps wfl)))"

definition dual_chain_preds :: "block list \<Rightarrow> nat \<Rightarrow> nat set" where
  "dual_chain_preds layout i =
     (case layout ! i of (j, f, b) \<Rightarrow>
        {2 * i}
        \<union> (if 0 < b then {2 * (i - 1) + 1} else {})
        \<union> (if b = 0 \<and> 0 < i \<and> fst (layout ! (i - 1)) = j then {2 * (i - 1) + 1} else {}))"

text \<open>
  The input block that \<^verbatim>\<open>workflow->addFile\<close> creates for block \<open>b\<close>, the blocks of one
  file in a layout, and the invariants of the loops over the blocks, the files and the jobs.
\<close>

definition block_file :: "nat \<Rightarrow> nat \<Rightarrow> real \<Rightarrow> nat \<Rightarrow> DataFile" where
  "block_file j f sz b = \<lparr>file_id = ''infile_'' @ block_name j f b, file_size = sz\<rparr>"

definition file_layout :: "nat \<Rightarrow> nat \<Rightarrow> nat \<Rightarrow> block list" where
  "file_layout j f n = map (\<lambda>b. (j, f, b)) [0..<n]"

definition file_inv :: "block list \<Rightarrow> nat \<Rightarrow> Workflow \<times> nat option \<times> nat option \<Rightarrow> bool" where
  "file_inv layout j ws \<longleftrightarrow>
     (case ws of (wfl, ed, et) \<Rightarrow>
        represents layout wfl \<and> ed = end_dummy layout j \<and> et = end_task layout j)"

definition chain_ok ::
  "block list \<Rightarrow> nat \<Rightarrow> nat \<Rightarrow> nat \<Rightarrow> nat option \<Rightarrow> nat option \<Rightarrow> chain \<Rightarrow> bool" where
  "chain_ok layout j nblocks k ed0 et0 st \<longleftrightarrow>
     represents layout (workflow st)
     \<and> dummytask_parent st = end_dummy layout j
     \<and> task_parent st = end_task layout j
     \<and> enddummytask st = (if k = nblocks \<and> 0 < k then end_dummy layout j else ed0)
     \<and> endtask st = (if k = nblocks \<and> 0 < k then end_task layout j else et0)"

definition files_inv :: "nat \<Rightarrow> nat \<Rightarrow> (Workflow \<times> nat option \<times> nat option) \<times> 'g \<Rightarrow> bool" where
  "files_inv j f s \<longleftrightarrow>
     (\<exists>layout. file_inv layout j (fst s) \<and> layout_ok layout
        \<and> (\<forall>blk \<in> set layout. precedes blk j f))"

definition jobs_inv :: "nat \<Rightarrow> Workflow \<times> 'g \<Rightarrow> bool" where
  "jobs_inv j s \<longleftrightarrow>
     (\<exists>layout. represents layout (fst s) \<and> layout_ok layout \<and> (\<forall>blk \<in> set layout. fst blk < j))"

section \<open>Concrete inputs\<close>

text \<open>
  Scenario E: a pool of ten files in one dataset and a batch of three jobs.  The
  generator is not used by \<^verbatim>\<open>assignFiles\<close>; every distribution returns 1.
\<close>

definition scenarioE_files :: "DataFile list" where
  "scenarioE_files = map (\<lambda>fid. \<lparr>file_id = fid, file_size = 1\<rparr>)
     [''f0'', ''f1'', ''f2'', ''f3'', ''f4'', ''f5'', ''f6'', ''f7'', ''f8'', ''f9'']"

definition scenarioE_job :: "string \<Rightarrow> JobSpecification" where
  "scenarioE_job jid = \<lparr>jobid = jid, cores = 1, total_flops = 1, total_mem = 1,
     outfile = \<lparr>file_id = ''outfile_'' @ jid, file_size = 1\<rparr>, infiles = []\<rparr>"

definition scenarioE_workload :: "unit Workload" where
  "scenarioE_workload = \<lparr>generator = (), core_dist = (\<lambda>g. (1, g)), flops_dist = (\<lambda>g. (1, g)),
     mem_dist = (\<lambda>g. (1, g)), outsize_dist = (\<lambda>g. (1, g)),
     job_batch = map scenarioE_job [''0'', ''1'', ''2''],
     infile_datasets = [''data'']\<rparr>"

text \<open>
  Scenario A: the workflow that the builder is to produce for one job with one input file
  of 2500000 bytes and blocks of 1000000 bytes, for the flops \<open>dflops\<close> and the
  memory \<open>dmem\<close> drawn for the job.
\<close>

definition empty_workflow :: Workflow where
  "empty_workflow = \<lparr>wf_tasks = [], wf_files = [], wf_deps = []\<rparr>"

definition scenarioA_workflow :: "real \<Rightarrow> real \<Rightarrow> real \<Rightarrow> Workflow" where
  "scenarioA_workflow dflops dmem dummy_flops =
     \<lparr>wf_tasks =
        [\<lparr>task_id = ''dummytask_0_file_0_block_0'', task_flops = dummy_flops,
          min_num_cores = 1, max_num_cores = 1, memory_requirement = dummy_flops,
          input_files = [\<lparr>file_id = ''infile_0_file_0_block_0'', file_size = 1000000\<rparr>],
          output_files = []\<rparr>,
         \<lparr>task_id = ''task_0_file_0_block_0'', task_flops = dflops * 1000000 / 2500000,
          min_num_cores = 1, max_num_cores = 1, memory_requirement = dmem,
          input_files = [], output_files = []\<rparr>,
         \<lparr>task_id = ''dummytask_0_file_0_block_1'', task_flops = dummy_flops,
          min_num_cores = 1, max_num_cores = 1, memory_requirement = dummy_flops,
          input_files = [\<lparr>file_id = ''infile_0_file_0_block_1'', file_size = 1000000\<rparr>],
          output_files = []\<rparr>,
         \<lparr>task_id = ''task_0_file_0_block_1'', task_flops = dflops * 1000000 / 2500000,
          min_num_cores = 1, max_num_cores = 1, memory_requirement = dmem,
          input_files = [], output_files = []\<rparr>,
         \<lparr>task_id = ''dummytask_0_file_0_block_2'', task_flops = dummy_flops,
          min_num_cores = 1, max_num_cores = 1, memory_requirement = dummy_flops,
          input_files = [\<lparr>file_id = ''infile_0_file_0_block_2'', file_size = 500000\<rparr>],
          output_files = []\<rparr>,
         \<lparr>task_id = ''task_0_file_0_block_2'', task_flops = dflops * 500000 / 2500000,
          min_num_cores = 1, max_num_cores = 1, memory_requirement = dmem,
          input_files = [],
          output_files = [\<lparr>file_id = ''outfile_0'', file_size = 0\<rparr>]\<rparr>],
      wf_files =
        [\<lparr>file_id = ''infile_0_file_0_block_0'', file_size = 1000000\<rparr>,
         \<lparr>file_id = ''infile_0_file_0_block_1'', file_size = 1000000\<rparr>,
         \<lparr>file_id = ''infile_0_file_0_block_2'', file_size = 500000\<rparr>,
         \<lparr>file_id = ''outfile_0'', file_size = 0\<rparr>],
      wf_deps = [(0, 1), (0, 2), (2, 3), (1, 3), (2, 4), (4, 5), (3, 5)]\<rparr>"

text \<open>\<^verbatim>\<open>std::numeric_limits<double>::min()\<close>, the default of \<^verbatim>\<open>dummy_flops\<close>.\<close>

definition double_min :: real where
  "double_min = 1 / 2 ^ 1022"


section \<open>Properties of assignFiles\<close>

lemma transform_if_eq:
  "transform_if xs dest pred transform = dest @ map transform (filter pred xs)"
  by (induction xs arbitrary: dest) auto

lemma foldl_length_files:
  "foldl (\<lambda>sum ds. sum + length (files ds)) n dss = n + length (concat (map files dss))"
  by (induction dss arbitrary: n) auto

lemma assign_loop_length [simp]:
  "length (assign_loop all_files k num_jobs j batch) = length batch"
  by (induction all_files k num_jobs j batch rule: assign_loop.induct)
     (subst assign_loop.simps, simp)

text \<open>
  With \<open>k * num_jobs \<le> num_files\<close>, which the floor division guarantees, at least
  \<open>k\<close> files remain at every job: the branch that hands out the rest is never taken.
\<close>

lemma assign_loop_no_break:
  assumes "k * num_jobs \<le> length all_files" and "j < num_jobs"
  shows "\<not> int (length all_files) - int (j * k) < int k"
proof -
  from assms(2) have "Suc j \<le> num_jobs" by simp
  then have "k * Suc j \<le> k * num_jobs" by (rule mult_le_mono2)
  with assms(1) have "j * k + k \<le> length all_files" by (simp add: mult.commute)
  then show ?thesis by linarith
qed

lemma assign_loop_nth:
  "k * num_jobs \<le> length all_files \<Longrightarrow> num_jobs \<le> length batch \<Longrightarrow> i < length batch \<Longrightarrow>
   assign_loop all_files k num_jobs j batch ! i =
     (if j \<le> i \<and> i < num_jobs
      then append_infiles (batch ! i) (take k (drop (i * k) all_files))
      else batch ! i)"
proof (induction all_files k num_jobs j batch rule: assign_loop.induct)
  case (1 all_files k num_jobs j batch)
  show ?case
  proof (cases "j < num_jobs")
    case False
    with "1.prems" show ?thesis by (subst assign_loop.simps) auto
  next
    case True
    have nb: "\<not> int (length all_files) - int (j * k) < int k"
      using assign_loop_no_break[OF "1.prems"(1) True] .
    have step: "assign_loop all_files k num_jobs j batch =
      assign_loop all_files k num_jobs (Suc j)
        (batch[j := append_infiles (batch ! j) (take k (drop (j * k) all_files))])"
      using True nb by (subst assign_loop.simps) simp
    show ?thesis
      using "1.IH"[OF True nb "1.prems"(1)] "1.prems" True
      unfolding step
      by (auto simp: nth_list_update le_Suc_eq)
  qed
qed

text \<open>
  What \<^verbatim>\<open>assignFiles\<close> does for a non-empty batch and a matching dataset: with
  \<open>N\<close> files in the pool and \<open>J\<close> jobs, job \<open>j\<close> gets the \<open>N div J\<close> files from
  position \<open>j * (N div J)\<close> on, and nothing else.
\<close>

lemma assignFiles_each_job:
  assumes "\<exists>ds \<in> set dataset_specs. name ds \<in> set (infile_datasets w)"
    and "job_batch w \<noteq> []"
    and "j < length (job_batch w)"
  shows "\<exists>w'. assignFiles w dataset_specs = Inr w' \<and> length (job_batch w') = length (job_batch w) \<and>
     job_batch w' ! j = append_infiles (job_batch w ! j)
        (take (length (pool dataset_specs (infile_datasets w)) div length (job_batch w))
          (drop (j * (length (pool dataset_specs (infile_datasets w)) div length (job_batch w)))
             (pool dataset_specs (infile_datasets w))))"
proof -
  let ?m = "filter (\<lambda>ds. name ds \<in> set (infile_datasets w)) dataset_specs"
  have m: "?m \<noteq> []" using assms(1) by (auto simp: filter_empty_conv)
  let ?N = "length (pool dataset_specs (infile_datasets w))"
  let ?J = "length (job_batch w)"
  have kJ: "(?N div ?J) * ?J \<le> ?N" by simp
  show ?thesis
    using m assms(2,3) kJ
    by (simp add: assignFiles_def transform_if_eq foldl_length_files Let_def pool_def
        assign_loop_nth)
qed

text \<open>
  Claim C1, on scenario E.  With ten files and three jobs the claim gives job 2 the four
  files \<open>f6\<close> to \<open>f9\<close>.  The code gives every job three files: job 2 gets \<open>f6\<close>,
  \<open>f7\<close> and \<open>f8\<close>, and \<open>f9\<close> is assigned to no job.
\<close>

theorem assignFiles_scenarioE:
  "\<exists>w'. assignFiles scenarioE_workload [\<lparr>name = ''data'', files = scenarioE_files\<rparr>] = Inr w'
     \<and> map (\<lambda>job. map file_id (infiles job)) (job_batch w') =
         [[''f0'', ''f1'', ''f2''], [''f3'', ''f4'', ''f5''], [''f6'', ''f7'', ''f8'']]"
  by (simp add: assignFiles_def scenarioE_workload_def scenarioE_files_def scenarioE_job_def
      assign_loop.simps append_infiles_def)

text \<open>
  Claim C9.  \<^verbatim>\<open>assignFiles\<close> fails, with the runtime error of line 221 and with no
  other error, exactly when no dataset specification has a name that is among the
  configured infile dataset names; and when some dataset matches and the job batch is
  empty, it returns the workload as it was.
\<close>

theorem assignFiles_error_iff_no_match:
  "(assignFiles w dataset_specs =
      Inl (runtime_error ''ERROR: no valid infile dataset name in workload configuration.'')
    \<longleftrightarrow> (\<forall>ds \<in> set dataset_specs. name ds \<notin> set (infile_datasets w)))
   \<and> ((\<exists>e. assignFiles w dataset_specs = Inl e)
    \<longleftrightarrow> (\<forall>ds \<in> set dataset_specs. name ds \<notin> set (infile_datasets w)))
   \<and> ((\<exists>ds \<in> set dataset_specs. name ds \<in> set (infile_datasets w)) \<and> job_batch w = []
        \<longrightarrow> assignFiles w dataset_specs = Inr w)"
  by (auto simp: assignFiles_def transform_if_eq Let_def filter_empty_conv)

theorem assignFiles_error_iff_no_match_witness:
  "assignFiles scenarioE_workload [\<lparr>name = ''other'', files = scenarioE_files\<rparr>] =
      Inl (runtime_error ''ERROR: no valid infile dataset name in workload configuration.'')
   \<and> assignFiles (scenarioE_workload\<lparr>job_batch := []\<rparr>) [\<lparr>name = ''data'', files = scenarioE_files\<rparr>]
      = Inr (scenarioE_workload\<lparr>job_batch := []\<rparr>)"
  using assignFiles_error_iff_no_match
      [of scenarioE_workload "[\<lparr>name = ''other'', files = scenarioE_files\<rparr>]"]
    assignFiles_error_iff_no_match
      [of "scenarioE_workload\<lparr>job_batch := []\<rparr>" "[\<lparr>name = ''data'', files = scenarioE_files\<rparr>]"]
  by (simp add: scenarioE_workload_def)

section \<open>Properties of the rejection resampling loops\<close>

lemma resample_induct [consumes 1, case_names step]:
  assumes "resample reject distr x gen = Some r"
    and "\<And>loop reject distr x gen r.
           (\<And>reject distr x gen r. loop reject distr x gen = Some r \<Longrightarrow> P reject distr x gen r) \<Longrightarrow>
           (if reject x then loop reject distr (fst (distr gen)) (snd (distr gen))
            else Some (x, gen)) = Some r \<Longrightarrow>
           P reject distr x gen r"
  shows "P reject distr x gen r"
  using resample.raw_induct[of P "(((reject, distr), x), gen)" r, simplified] assms
  by blast



lemma gen_after_Suc: "gen_after distr (Suc n) gen = gen_after distr n (snd (distr gen))"
  unfolding gen_after_def by (simp only: funpow_Suc_right comp_apply)

lemma nth_draw_Suc: "nth_draw distr (Suc n) gen = nth_draw distr n (snd (distr gen))"
  by (simp add: nth_draw_def gen_after_Suc)

lemma nth_draw_0: "nth_draw distr 0 gen = fst (distr gen)"
  by (simp add: nth_draw_def gen_after_def)

lemma resample_first_valid:
  "\<forall>i<n. reject (nth_draw distr i gen) \<Longrightarrow> \<not> reject (nth_draw distr n gen) \<Longrightarrow>
   resample reject distr (fst (distr gen)) (snd (distr gen)) =
     Some (nth_draw distr n gen, gen_after distr (Suc n) gen)"
proof (induction n arbitrary: gen)
  case 0
  then show ?case
    by (subst resample.simps) (simp add: nth_draw_0 gen_after_def)
next
  case (Suc n)
  have r: "reject (fst (distr gen))" using Suc.prems(1) by (auto simp: nth_draw_0 dest: spec[of _ 0])
  have "\<forall>i<n. reject (nth_draw distr i (snd (distr gen)))"
    using Suc.prems(1) by (auto simp: nth_draw_Suc[symmetric])
  moreover have "\<not> reject (nth_draw distr n (snd (distr gen)))"
    using Suc.prems(2) by (simp add: nth_draw_Suc)
  ultimately have "resample reject distr (fst (distr (snd (distr gen)))) (snd (distr (snd (distr gen)))) =
     Some (nth_draw distr n (snd (distr gen)), gen_after distr (Suc n) (snd (distr gen)))"
    by (rule Suc.IH)
  then show ?case
    using r by (subst resample.simps) (simp add: nth_draw_Suc gen_after_Suc)
qed

lemma resample_returns_valid_draw:
  "resample reject distr x gen = Some r \<Longrightarrow> \<not> reject x \<or> (\<exists>n. \<not> reject (nth_draw distr n gen))"
proof (induction rule: resample_induct)
  case (step loop reject distr x gen r)
  show ?case
  proof (cases "reject x")
    case False then show ?thesis by simp
  next
    case True
    with step(2) have "loop reject distr (fst (distr gen)) (snd (distr gen)) = Some r" by simp
    from step(1)[OF this] have "\<not> reject (nth_draw distr 0 gen) \<or> (\<exists>n. \<not> reject (nth_draw distr (Suc n) gen))"
      by (simp add: nth_draw_0 nth_draw_Suc)
    then show ?thesis by blast
  qed
qed

lemma sample_while_diverges:
  assumes "\<forall>n. reject (nth_draw distr n gen)"
  shows "sample_while reject distr gen = None"
proof (rule ccontr)
  assume "sample_while reject distr gen \<noteq> None"
  then obtain r where "resample reject distr (fst (distr gen)) (snd (distr gen)) = Some r"
    by (auto simp: sample_while_def)
  from resample_returns_valid_draw[OF this]
  have "\<not> reject (nth_draw distr 0 gen) \<or> (\<exists>n. \<not> reject (nth_draw distr (Suc n) gen))"
    by (simp add: nth_draw_0 nth_draw_Suc)
  with assms show False by blast
qed

lemma sample_while_first:
  "\<not> reject (fst (distr gen)) \<Longrightarrow> sample_while reject distr gen = Some (distr gen)"
  unfolding sample_while_def by (subst resample.simps) simp

lemma to_string_digit: "n < 10 \<Longrightarrow> to_string n = [digit_char n]"
  by (subst to_string.simps) simp

lemma gen_after_const: "gen_after (\<lambda>g. (c, g)) n gen = gen"
  by (induction n) (simp_all add: gen_after_def)

lemma gen_after_count: "gen_after (\<lambda>g. (f g, Suc g)) n gen = gen + n"
  by (induction n) (simp_all add: gen_after_def)




text \<open>
  Claim C4, as amended.  The loops have no iteration cap and no error result: after any
  number \<open>n\<close> of rejected draws the loop returns the first draw that is not rejected,
  with the generator state after \<open>n + 1\<close> draws; and when every draw is rejected the loop
  does not return.
\<close>

theorem resample_has_no_cap:
  "((\<forall>i<n. reject (nth_draw distr i gen)) \<and> \<not> reject (nth_draw distr n gen)
      \<longrightarrow> sample_while reject distr gen = Some (nth_draw distr n gen, gen_after distr (Suc n) gen))
   \<and> ((\<forall>i. reject (nth_draw distr i gen)) \<longrightarrow> sample_while reject distr gen = None)"
  using resample_first_valid[of n reject distr gen] sample_while_diverges[of reject distr gen]
  by (simp add: sample_while_def)

theorem resample_has_no_cap_witness:
  "sample_while (\<lambda>x. x < 0) (\<lambda>g. (real g - 3, Suc g)) 0 = Some (0, 4)
   \<and> sample_while (\<lambda>x. x < 0) (\<lambda>g. (- 1 :: real, g)) () = None"
  using resample_has_no_cap [of 3 "\<lambda>x. x < 0" "\<lambda>g. (real g - 3, Suc g)" 0]
    resample_has_no_cap [of 0 "\<lambda>x. x < 0" "\<lambda>g. (- 1 :: real, g)" "()"]
  by (simp add: nth_draw_def gen_after_count gen_after_const)

text \<open>
  The claim that a loop which finds no valid value fails with an error is false: with a
  distribution that always draws \<open>-1\<close> the loop for a non-negative value never returns.
\<close>

theorem resample_never_returns: "sample_while (\<lambda>x. x < 0) (\<lambda>g. (- 1 :: real, g)) () = None"
  by (rule sample_while_diverges) (simp add: nth_draw_def)

section \<open>Properties of fill_streaming_workflow\<close>

lemma scenarioA_builds:
  assumes "flops gen = (dflops, gen1)" and "0 \<le> dflops"
    and "mem gen1 = (dmem, gen2)" and "0 \<le> dmem"
    and "insize gen2 = (2500000, gen3)"
  shows "fill_streaming_workflow empty_workflow 1 1 flops mem insize True 1000000 dummy_flops gen
         = Some (Inr (scenarioA_workflow dflops dmem dummy_flops, gen3))"
proof -
  have f: "sample_while (\<lambda>dflops. dflops < 0) flops gen = Some (dflops, gen1)"
    using assms(1,2) sample_while_first[of "\<lambda>x. x < 0" flops gen] by simp
  have m: "sample_while (\<lambda>dmem. dmem < 0) mem gen1 = Some (dmem, gen2)"
    using assms(3,4) sample_while_first[of "\<lambda>x. x < 0" mem gen1] by simp
  have i: "sample_while (\<lambda>dinsize. dinsize < 0) insize gen2 = Some (2500000, gen3)"
    using assms(5) sample_while_first[of "\<lambda>x. x < 0" insize gen2] by simp
  have n: "quotient_to_size_t 2500000 1000000 = Some 2"
    by (simp add: quotient_to_size_t_def double_to_size_t_def)
  have u: "[0..<2] = [0, Suc 0]" by (simp add: upt_rec)
  show ?thesis
    by (simp add: fill_streaming_workflow_def job_body_def file_body_def f m i stream_file_def block_loop_def last_block_def n u
        block_step_def add_block_def addTask_def addFile_def addInputFile_def addOutputFile_def
        addControlDependency_def attach_outfile_def block_name_def to_string_digit digit_char_def
        empty_workflow_def scenarioA_workflow_def Let_def)
qed


text \<open>
  Claim C6, scenario A.  With one job, one input file, blockwise streaming and blocks of
  1000000 bytes, when the first draws of flops and memory are accepted and the file size
  drawn is 2500000, the builder returns the workflow \<open>scenarioA_workflow\<close>: three dummy
  tasks with input blocks of 1000000, 1000000 and 500000 bytes, three tasks, the two
  chains of dependencies, and the output file of size 0 on the last task.
\<close>

theorem scenarioA_three_blocks:
  assumes "flops gen = (dflops, gen1)" and "0 \<le> dflops"
    and "mem gen1 = (dmem, gen2)" and "0 \<le> dmem"
    and "insize gen2 = (2500000, gen3)"
  shows "fill_streaming_workflow empty_workflow 1 1 flops mem insize True 1000000 dummy_flops gen
         = Some (Inr (scenarioA_workflow dflops dmem dummy_flops, gen3))"
  using assms by (rule scenarioA_builds)

theorem scenarioA_three_blocks_witness:
  "fill_streaming_workflow empty_workflow 1 1 (\<lambda>g. (1200000, g)) (\<lambda>g. (2000000000, g))
     (\<lambda>g. (2500000, g)) True 1000000 double_min ()
   = Some (Inr (scenarioA_workflow 1200000 2000000000 double_min, ()))"
  using scenarioA_three_blocks [of "\<lambda>g. (1200000, g)" "()" 1200000 "()" "\<lambda>g. (2000000000, g)" 2000000000 "()"
      "\<lambda>g. (2500000, g)" "()" double_min]
  by simp

text \<open>
  Claim C10.  Attaching the output file at the end of a job fails exactly when the job's
  \<^verbatim>\<open>endtask\<close> is still null, and then with the null dereference; and with at least one
  job and no input file per job, once the flops and the memory of the first job are
  drawn, the builder reaches that dereference.
\<close>

theorem null_endtask_without_blocks:
  "((\<exists>e. attach_outfile wfl j endtask0 = Inl e) \<longleftrightarrow> endtask0 = None)
   \<and> (attach_outfile wfl j None = Inl null_dereference)
   \<and> (0 < num_jobs
        \<and> sample_while (\<lambda>dflops. dflops < 0) flops gen = Some (dflops, gen1)
        \<and> sample_while (\<lambda>dmem. dmem < 0) mem gen1 = Some (dmem, gen2)
      \<longrightarrow> fill_streaming_workflow wfl num_jobs 0 flops mem insize use_blockstreaming
            xrd_block_size dummy_flops gen = Some (Inl null_dereference))"
  by (auto simp: attach_outfile_def fill_streaming_workflow_def job_body_def upt_conv_Cons
      split: option.splits prod.splits)

theorem null_endtask_without_blocks_witness:
  "fill_streaming_workflow empty_workflow 1 0 (\<lambda>g. (1200000, g)) (\<lambda>g. (2000000000, g))
     (\<lambda>g. (2500000, g)) True 1000000 double_min () = Some (Inl null_dereference)"
  using null_endtask_without_blocks [of empty_workflow _ _ 1 "\<lambda>g. (1200000, g)" "()" 1200000 "()"
      "\<lambda>g. (2000000000, g)" 2000000000 "()" "\<lambda>g. (2500000, g)" True 1000000 double_min]
  by (simp add: sample_while_first)

section \<open>The builder follows a layout\<close>

lemma add_block_handles:
  "snd (add_block wfl j f b sz dinsize dflops dmem dummy_flops dp tp) =
     (length (wf_tasks wfl), Suc (length (wf_tasks wfl)))"
  by (simp add: add_block_def addTask_def addFile_def addInputFile_def addControlDependency_def
      Let_def split: option.splits)

lemma add_block_task_ids:
  "map task_id (wf_tasks (fst (add_block wfl j f b sz dinsize dflops dmem dummy_flops dp tp))) =
     map task_id (wf_tasks wfl) @ block_task_ids (j, f, b)"
  by (simp add: add_block_def addTask_def addFile_def addInputFile_def addControlDependency_def
      block_task_ids_def Let_def split: option.splits)

lemma add_block_files:
  "wf_files (fst (add_block wfl j f b sz dinsize dflops dmem dummy_flops dp tp)) =
     wf_files wfl @ [block_file j f sz b]"
  by (simp add: add_block_def addTask_def addFile_def addInputFile_def addControlDependency_def
      block_file_def Let_def split: option.splits)

lemma add_block_input_files:
  "concat (map input_files (wf_tasks (fst (add_block wfl j f b sz dinsize dflops dmem dummy_flops dp tp)))) =
     concat (map input_files (wf_tasks wfl)) @ [block_file j f sz b]"
  by (simp add: add_block_def addTask_def addFile_def addInputFile_def addControlDependency_def
      block_file_def Let_def split: option.splits)

lemma add_block_deps:
  "wf_deps (fst (add_block wfl j f b sz dinsize dflops dmem dummy_flops dp tp)) =
     wf_deps wfl
     @ (case dp of Some p \<Rightarrow> [(p, length (wf_tasks wfl))] | None \<Rightarrow> [])
     @ [(length (wf_tasks wfl), Suc (length (wf_tasks wfl)))]
     @ (case tp of Some p \<Rightarrow> [(p, Suc (length (wf_tasks wfl)))] | None \<Rightarrow> [])"
  by (simp add: add_block_def addTask_def addFile_def addInputFile_def addControlDependency_def
      Let_def split: option.splits)

lemma length_block_ids: "length (concat (map block_task_ids layout)) = 2 * length layout"
  by (induction layout) (auto simp: block_task_ids_def)

lemma represents_length: "represents layout wfl \<Longrightarrow> length (wf_tasks wfl) = 2 * length layout"
  using length_block_ids[of layout] unfolding represents_def
  by (metis length_map)

lemma linked_append_old:
  "i < length layout \<Longrightarrow> linked (layout @ rest) i = linked layout i"
  by (auto simp: linked_def nth_append)

lemma block_deps_append_old:
  "i < length layout \<Longrightarrow> block_deps (layout @ rest) i = block_deps layout i"
  by (simp add: block_deps_def linked_append_old)

lemma linked_new:
  "linked (layout @ [(j, f, b)]) (length layout) \<longleftrightarrow> layout \<noteq> [] \<and> fst (last layout) = j"
  by (cases "layout = []") (auto simp: linked_def nth_append last_conv_nth)

lemma dual_chain_deps_snoc:
  "dual_chain_deps (layout @ [blk]) =
     dual_chain_deps layout @ block_deps (layout @ [blk]) (length layout)"
proof -
  have eq: "map (block_deps (layout @ [blk])) [0..<length layout] =
        map (block_deps layout) [0..<length layout]"
    by (rule map_cong) (simp_all add: block_deps_append_old)
  show ?thesis by (simp add: dual_chain_deps_def eq del: map_eq_conv)
qed

lemma represents_add_block:
  assumes "represents layout wfl"
  shows "represents (layout @ [(j, f, b)])
           (fst (add_block wfl j f b sz dinsize dflops dmem dummy_flops
                   (end_dummy layout j) (end_task layout j)))"
proof -
  have len: "length (wf_tasks wfl) = 2 * length layout"
    using assms by (rule represents_length)
  have ids: "map task_id (wf_tasks wfl) = concat (map block_task_ids layout)"
    and deps: "wf_deps wfl = dual_chain_deps layout"
    using assms by (simp_all add: represents_def)
  have "layout \<noteq> [] \<Longrightarrow> 0 < length layout" by simp
  then show ?thesis
    unfolding represents_def add_block_task_ids add_block_deps dual_chain_deps_snoc
    by (auto simp: ids deps len block_deps_def linked_new end_dummy_def end_task_def
        numeral_2_eq_2 diff_mult_distrib2)
qed

lemma add_block_dummytask:
  "fst (snd (add_block wfl j f b sz dinsize dflops dmem dummy_flops dp tp)) = length (wf_tasks wfl)"
  by (simp add: add_block_handles)

lemma add_block_task:
  "snd (snd (add_block wfl j f b sz dinsize dflops dmem dummy_flops dp tp)) =
     Suc (length (wf_tasks wfl))"
  by (simp add: add_block_handles)

lemma block_step_workflow:
  "workflow (block_step j f dinsize xbs dflops dmem dummy_flops nblocks b st) =
     fst (add_block (workflow st) j f b xbs dinsize dflops dmem dummy_flops
            (dummytask_parent st) (task_parent st))"
  by (simp add: block_step_def Let_def split_def)

lemma block_step_parents:
  "dummytask_parent (block_step j f dinsize xbs dflops dmem dummy_flops nblocks b st) =
     Some (length (wf_tasks (workflow st)))"
  "task_parent (block_step j f dinsize xbs dflops dmem dummy_flops nblocks b st) =
     Some (Suc (length (wf_tasks (workflow st))))"
  by (simp_all add: block_step_def Let_def split_def add_block_dummytask add_block_task)

lemma block_step_ends:
  "enddummytask (block_step j f dinsize xbs dflops dmem dummy_flops nblocks b st) =
     (if b = nblocks - 1 then Some (length (wf_tasks (workflow st))) else enddummytask st)"
  "endtask (block_step j f dinsize xbs dflops dmem dummy_flops nblocks b st) =
     (if b = nblocks - 1 then Some (Suc (length (wf_tasks (workflow st)))) else endtask st)"
  by (simp_all add: block_step_def Let_def split_def add_block_dummytask add_block_task)

lemma file_layout_Suc: "file_layout j f (Suc n) = file_layout j f n @ [(j, f, n)]"
  by (simp add: file_layout_def)

lemma file_layout_0: "file_layout j f 0 = []"
  by (simp add: file_layout_def)

lemma ends_snoc:
  "end_dummy (layout @ [(j, f, b)]) j = Some (2 * length layout)"
  "end_task (layout @ [(j, f, b)]) j = Some (Suc (2 * length layout))"
  by (simp_all add: end_dummy_def end_task_def)

lemma chain_ok_step:
  assumes "chain_ok layout j nblocks k ed0 et0 st" and "k < nblocks"
  shows "chain_ok (layout @ [(j, f, k)]) j nblocks (Suc k) ed0 et0
           (block_step j f dinsize xbs dflops dmem dummy_flops nblocks k st)"
proof -
  have r: "represents layout (workflow st)"
    and dp: "dummytask_parent st = end_dummy layout j"
    and tp: "task_parent st = end_task layout j"
    and ed: "enddummytask st = ed0" and et: "endtask st = et0"
    using assms by (simp_all add: chain_ok_def)
  have len: "length (wf_tasks (workflow st)) = 2 * length layout"
    using r by (rule represents_length)
  have "represents (layout @ [(j, f, k)])
          (workflow (block_step j f dinsize xbs dflops dmem dummy_flops nblocks k st))"
    unfolding block_step_workflow dp tp using r by (rule represents_add_block)
  moreover have "k = nblocks - 1 \<longleftrightarrow> Suc k = nblocks" using assms(2) by auto
  ultimately show ?thesis
    by (simp add: chain_ok_def block_step_parents block_step_ends ends_snoc len ed et)
qed

lemma fold_block_step:
  assumes "chain_ok layout j nblocks 0 ed0 et0 st"
  shows "k \<le> nblocks \<Longrightarrow>
     chain_ok (layout @ file_layout j f k) j nblocks k ed0 et0
       (fold (block_step j f dinsize xbs dflops dmem dummy_flops nblocks) [0..<k] st)"
proof (induction k)
  case 0
  with assms show ?case by (simp add: file_layout_0)
next
  case (Suc k)
  then have "chain_ok (layout @ file_layout j f k) j nblocks k ed0 et0
       (fold (block_step j f dinsize xbs dflops dmem dummy_flops nblocks) [0..<k] st)"
    and "k < nblocks" by simp_all
  from chain_ok_step[OF this, of f dinsize xbs dflops dmem dummy_flops]
  show ?case by (simp add: file_layout_Suc)
qed

lemma fold_block_step_files:
  "wf_files (workflow (fold (block_step j f dinsize xbs dflops dmem dummy_flops nblocks) [0..<k] st)) =
     wf_files (workflow st) @ map (block_file j f xbs) [0..<k]"
  by (induction k) (simp_all add: block_step_workflow add_block_files)

lemma fold_block_step_input_files:
  "concat (map input_files (wf_tasks (workflow
       (fold (block_step j f dinsize xbs dflops dmem dummy_flops nblocks) [0..<k] st)))) =
     concat (map input_files (wf_tasks (workflow st))) @ map (block_file j f xbs) [0..<k]"
  by (induction k) (simp_all add: block_step_workflow add_block_input_files)

lemma block_loop_chain_ok:
  assumes "file_inv layout j (wfl, ed, et)"
  shows "chain_ok (layout @ file_layout j f nblocks) j nblocks nblocks ed et
           (block_loop j f dinsize xbs dflops dmem dummy_flops nblocks (wfl, ed, et))"
proof -
  have r: "represents layout wfl" and ed: "ed = end_dummy layout j" and et: "et = end_task layout j"
    using assms by (simp_all add: file_inv_def)
  have "chain_ok layout j nblocks 0 ed et
          \<lparr>workflow = wfl,
            dummytask_parent = (if ed \<noteq> None \<and> et \<noteq> None then ed else None),
            task_parent = (if ed \<noteq> None \<and> et \<noteq> None then et else None),
            enddummytask = ed, endtask = et\<rparr>"
    using r by (auto simp: chain_ok_def ed et end_dummy_def end_task_def)
  from fold_block_step[OF this, of nblocks f dinsize xbs dflops dmem dummy_flops]
  show ?thesis by (simp add: block_loop_def)
qed

lemma stream_file_inv:
  assumes inv: "file_inv layout j (wfl, ed, et)"
    and run: "stream_file ubs bsa dummy_flops j dflops dmem f dinsize (wfl, ed, et) = Inr ws'"
  shows "\<exists>n. file_inv (layout @ file_layout j f n) j ws'"
proof -
  define xbs where "xbs = (if \<not> ubs then dinsize else bsa)"
  from run obtain nblocks where q: "quotient_to_size_t dinsize xbs = Some nblocks"
    by (auto simp: stream_file_def xbs_def Let_def split: option.splits)
  define st where "st = block_loop j f dinsize xbs dflops dmem dummy_flops nblocks (wfl, ed, et)"
  define layout1 where "layout1 = layout @ file_layout j f nblocks"
  have ws': "ws' = last_block j f dinsize xbs dflops dmem dummy_flops nblocks st"
    using run q by (simp add: stream_file_def xbs_def[symmetric] st_def)
  have ed: "ed = end_dummy layout j" and et: "et = end_task layout j"
    using inv by (simp_all add: file_inv_def)
  have ok: "chain_ok layout1 j nblocks nblocks ed et st"
    unfolding st_def layout1_def using inv by (rule block_loop_chain_ok)
  then have r1: "represents layout1 (workflow st)"
    and dp: "dummytask_parent st = end_dummy layout1 j"
    and tp: "task_parent st = end_task layout1 j"
    by (simp_all add: chain_ok_def)
  show ?thesis
  proof (cases "dinsize - real nblocks * xbs \<noteq> 0")
    case True
    let ?r = "add_block (workflow st) j f nblocks (dinsize - real nblocks * xbs) dinsize dflops dmem
                dummy_flops (dummytask_parent st) (task_parent st)"
    have lb: "ws' = (fst ?r, Some (fst (snd ?r)), Some (snd (snd ?r)))"
      using True by (simp add: ws' last_block_def Let_def split_def)
    have "represents (layout1 @ [(j, f, nblocks)]) (fst ?r)"
      unfolding dp tp using r1 by (rule represents_add_block)
    then have "file_inv (layout1 @ [(j, f, nblocks)]) j ws'"
      using represents_length[OF r1]
      by (simp add: file_inv_def lb add_block_dummytask add_block_task ends_snoc)
    then have "file_inv (layout @ file_layout j f (Suc nblocks)) j ws'"
      by (simp add: layout1_def file_layout_Suc)
    then show ?thesis ..
  next
    case False
    have lb: "ws' = (workflow st, enddummytask st, endtask st)"
      using False by (simp add: ws' last_block_def Let_def)
    have "file_inv (layout @ file_layout j f nblocks) j ws'"
      using ok ed et
      by (cases "nblocks = 0") (auto simp: file_inv_def lb chain_ok_def layout1_def file_layout_0)
    then show ?thesis ..
  qed
qed

lemma sum_block_files: "sum_list (map (file_size \<circ> block_file j f sz) [0..<n]) = real n * sz"
  by (induction n) (simp_all add: block_file_def algebra_simps)

lemma block_loop_files:
  "wf_files (workflow (block_loop j f dinsize xbs dflops dmem dummy_flops nblocks (wfl, ed, et))) =
     wf_files wfl @ map (block_file j f xbs) [0..<nblocks]"
  by (simp add: block_loop_def fold_block_step_files)

lemma block_loop_input_files:
  "concat (map input_files (wf_tasks (workflow
       (block_loop j f dinsize xbs dflops dmem dummy_flops nblocks (wfl, ed, et))))) =
     concat (map input_files (wf_tasks wfl)) @ map (block_file j f xbs) [0..<nblocks]"
  by (simp add: block_loop_def fold_block_step_input_files)

lemma stream_file_blocks:
  assumes run: "stream_file ubs bsa dummy_flops j dflops dmem f dinsize (wfl, ed, et) = Inr (wfl', ed', et')"
  shows "\<exists>nblocks blocks.
      quotient_to_size_t dinsize (if ubs then bsa else dinsize) = Some nblocks
      \<and> blocks = map (block_file j f (if ubs then bsa else dinsize)) [0..<nblocks]
           @ (if dinsize - real nblocks * (if ubs then bsa else dinsize) \<noteq> 0
              then [block_file j f (dinsize - real nblocks * (if ubs then bsa else dinsize)) nblocks]
              else [])
      \<and> wf_files wfl' = wf_files wfl @ blocks
      \<and> concat (map input_files (wf_tasks wfl')) = concat (map input_files (wf_tasks wfl)) @ blocks
      \<and> sum_list (map file_size blocks) = dinsize"
proof -
  define xbs where "xbs = (if ubs then bsa else dinsize)"
  have x: "(if \<not> ubs then dinsize else bsa) = xbs" by (simp add: xbs_def)
  from run obtain nblocks where q: "quotient_to_size_t dinsize xbs = Some nblocks"
    by (auto simp: stream_file_def x Let_def split: option.splits)
  define st where "st = block_loop j f dinsize xbs dflops dmem dummy_flops nblocks (wfl, ed, et)"
  have ws': "(wfl', ed', et') = last_block j f dinsize xbs dflops dmem dummy_flops nblocks st"
    using run q by (simp add: stream_file_def x st_def)
  have f1: "wf_files (workflow st) = wf_files wfl @ map (block_file j f xbs) [0..<nblocks]"
    unfolding st_def by (rule block_loop_files)
  have f2: "concat (map input_files (wf_tasks (workflow st))) =
     concat (map input_files (wf_tasks wfl)) @ map (block_file j f xbs) [0..<nblocks]"
    unfolding st_def by (rule block_loop_input_files)
  show ?thesis
  proof (cases "dinsize - real nblocks * xbs \<noteq> 0")
    case True
    then have "wfl' = fst (add_block (workflow st) j f nblocks (dinsize - real nblocks * xbs) dinsize
        dflops dmem dummy_flops (dummytask_parent st) (task_parent st))"
      using ws' by (simp add: last_block_def Let_def split_def)
    with True q f1 f2 show ?thesis
      unfolding xbs_def[symmetric]
      by (simp add: add_block_files add_block_input_files sum_block_files)
         (simp add: block_file_def)
  next
    case False
    then have "wfl' = workflow st"
      using ws' by (simp add: last_block_def Let_def)
    with False q f1 f2 show ?thesis
      unfolding xbs_def[symmetric]
      by (simp add: sum_block_files)
  qed
qed

lemma for_each_upt_invariant:
  assumes step: "\<And>i t t'. i < b \<Longrightarrow> P i t \<Longrightarrow> body i t = Some (Inr t') \<Longrightarrow> P (Suc i) t'"
  shows "for_each [a..<b] body s = Some (Inr s') \<Longrightarrow> P a s \<Longrightarrow> a \<le> b \<Longrightarrow> P b s'"
proof (induction "b - a" arbitrary: a s)
  case 0
  then show ?case by simp
next
  case (Suc n)
  then have ab: "a < b" by simp
  then have u: "[a..<b] = a # [Suc a..<b]" by (rule upt_conv_Cons)
  from Suc.prems(1) obtain s1 where b1: "body a s = Some (Inr s1)"
    and rest: "for_each [Suc a..<b] body s1 = Some (Inr s')"
    unfolding u by (auto split: option.splits sum.splits)
  have "P (Suc a) s1" using step[OF ab Suc.prems(2) b1] .
  moreover have "n = b - Suc a" using Suc.hyps(2) by simp
  ultimately show ?case
    using Suc.hyps(1)[of "Suc a" s1] rest ab by simp
qed

lemma set_file_layout: "set (file_layout j f n) = (\<lambda>b. (j, f, b)) ` {0..<n}"
  by (simp add: file_layout_def)

lemma length_file_layout [simp]: "length (file_layout j f n) = n"
  by (simp add: file_layout_def)

lemma nth_file_layout: "b < n \<Longrightarrow> file_layout j f n ! b = (j, f, b)"
  by (simp add: file_layout_def)

lemma layout_ok_append_file:
  assumes ok: "layout_ok layout" and pre: "\<forall>blk \<in> set layout. precedes blk j f"
  shows "layout_ok (layout @ file_layout j f n)"
  unfolding layout_ok_def
proof (intro allI impI)
  fix i assume i: "i < length (layout @ file_layout j f n)"
  show "case (layout @ file_layout j f n) ! i of
          (j', f', b) \<Rightarrow>
            if b = 0 then (0 < i \<longrightarrow> precedes ((layout @ file_layout j f n) ! (i - 1)) j' f')
            else 0 < i \<and> (layout @ file_layout j f n) ! (i - 1) = (j', f', b - 1)"
  proof (cases "i < length layout")
    case True
    moreover from True have "i - 1 < length layout" by simp
    ultimately have eq: "(layout @ file_layout j f n) ! i = layout ! i"
      "(layout @ file_layout j f n) ! (i - 1) = layout ! (i - 1)"
      by (simp_all only: nth_append if_True)
    have "case layout ! i of
          (j', f', b) \<Rightarrow>
            if b = 0 then (0 < i \<longrightarrow> precedes (layout ! (i - 1)) j' f')
            else 0 < i \<and> layout ! (i - 1) = (j', f', b - 1)"
      using ok[unfolded layout_ok_def, rule_format, OF True] .
    then show ?thesis by (simp only: eq)
  next
    case False
    define b where "b = i - length layout"
    have b: "b < n" and ib: "i = length layout + b" using i False by (simp_all add: b_def)
    have cur: "(layout @ file_layout j f n) ! i = (j, f, b)"
      using b by (simp add: ib nth_append nth_file_layout)
    show ?thesis
    proof (cases b)
      case 0
      have "0 < i \<Longrightarrow> precedes ((layout @ file_layout j f n) ! (i - 1)) j f"
      proof -
        assume "0 < i"
        then have "i - 1 < length layout" using 0 ib by simp
        then have "(layout @ file_layout j f n) ! (i - 1) = layout ! (i - 1)"
          and "layout ! (i - 1) \<in> set layout" by (simp_all add: nth_append)
        with pre show ?thesis by simp
      qed
      with cur 0 show ?thesis by simp
    next
      case (Suc b')
      then have "(layout @ file_layout j f n) ! (i - 1) = (j, f, b')"
        using b by (simp add: ib nth_append nth_file_layout)
      with cur Suc show ?thesis by (simp add: ib)
    qed
  qed
qed

lemma precedes_append_file:
  assumes "\<forall>blk \<in> set layout. precedes blk j f"
  shows "\<forall>blk \<in> set (layout @ file_layout j f n). precedes blk j (Suc f)"
  using assms by (auto simp: precedes_def set_file_layout)


lemma file_body_inv:
  assumes "files_inv j f s"
    and "file_body insize ubs bsa dummy_flops j dflops dmem f s = Some (Inr s')"
  shows "files_inv j (Suc f) s'"
proof -
  obtain wfl ed et gen where s: "s = ((wfl, ed, et), gen)" by (cases s) auto
  from assms(1) obtain layout where inv: "file_inv layout j (wfl, ed, et)"
    and ok: "layout_ok layout" and pre: "\<forall>blk \<in> set layout. precedes blk j f"
    by (auto simp: files_inv_def s)
  from assms(2) obtain dinsize gen' ws' where
    run: "stream_file ubs bsa dummy_flops j dflops dmem f dinsize (wfl, ed, et) = Inr ws'"
    and s': "s' = (ws', gen')"
    by (auto simp: file_body_def s split: option.splits sum.splits)
  from stream_file_inv[OF inv run] obtain n where
    "file_inv (layout @ file_layout j f n) j ws'" ..
  moreover have "layout_ok (layout @ file_layout j f n)"
    using ok pre by (rule layout_ok_append_file)
  moreover have "\<forall>blk \<in> set (layout @ file_layout j f n). precedes blk j (Suc f)"
    using pre by (rule precedes_append_file)
  ultimately show ?thesis
    unfolding files_inv_def s' by auto
qed


lemma map_task_id_update:
  "map task_id (xs[t := (xs ! t)\<lparr>output_files := ys\<rparr>]) = map task_id xs"
  by (cases "t < length xs") (simp_all add: map_update list_update_same_conv list_update_beyond)

lemma represents_addOutputFile:
  "represents layout wfl \<Longrightarrow> represents layout (addOutputFile (fst (addFile wfl fid sz)) t outf)"
  by (simp add: represents_def addOutputFile_def addFile_def map_task_id_update)

lemma job_body_inv:
  assumes "jobs_inv j s"
    and "job_body infiles_per_task flops mem insize ubs bsa dummy_flops j s = Some (Inr s')"
  shows "jobs_inv (Suc j) s'"
proof -
  obtain wfl gen where s: "s = (wfl, gen)" by (cases s) auto
  from assms(1) obtain layout where r: "represents layout wfl"
    and ok: "layout_ok layout" and lt: "\<forall>blk \<in> set layout. fst blk < j"
    by (auto simp: jobs_inv_def s)
  from assms(2) obtain dflops dmem gen2 wfl' ed' et' gen3 wfl'' where
    loop: "for_each [0..<infiles_per_task]
             (file_body insize ubs bsa dummy_flops j dflops dmem) ((wfl, None, None), gen2)
           = Some (Inr ((wfl', ed', et'), gen3))"
    and att: "attach_outfile wfl' j et' = Inr wfl''"
    and s': "s' = (wfl'', gen3)"
    by (auto simp: job_body_def s split: option.splits sum.splits prod.splits)
  have "layout \<noteq> [] \<Longrightarrow> fst (last layout) < j" using lt by simp
  then have e: "end_dummy layout j = None" "end_task layout j = None"
    by (auto simp: end_dummy_def end_task_def)
  have f0: "files_inv j 0 ((wfl, None, None), gen2)"
    unfolding files_inv_def using r ok lt
    by (auto simp: file_inv_def e precedes_def intro!: exI[of _ layout])
  have "files_inv j infiles_per_task ((wfl', ed', et'), gen3)"
    by (rule for_each_upt_invariant[where P = "files_inv j", OF _ loop f0])
       (auto intro: file_body_inv)
  then obtain layout' where r': "represents layout' wfl'" and ok': "layout_ok layout'"
    and pre': "\<forall>blk \<in> set layout'. precedes blk j infiles_per_task"
    by (auto simp: files_inv_def file_inv_def)
  from att obtain t where "wfl'' = addOutputFile (fst (addFile wfl' (''outfile_'' @ to_string j) 0)) t
      (snd (addFile wfl' (''outfile_'' @ to_string j) 0))"
    by (auto simp: attach_outfile_def split_def Let_def split: option.splits)
  then have "represents layout' wfl''"
    using r' by (simp add: represents_addOutputFile)
  moreover have "\<forall>blk \<in> set layout'. fst blk < Suc j"
    using pre' by (auto simp: precedes_def)
  ultimately show ?thesis
    unfolding jobs_inv_def s' using ok' by auto
qed

lemma fill_streaming_workflow_layout:
  assumes "fill_streaming_workflow empty_workflow num_jobs infiles_per_task flops mem insize
             ubs bsa dummy_flops gen = Some (Inr (wfl, gen'))"
  shows "\<exists>layout. represents layout wfl \<and> layout_ok layout"
proof -
  have j0: "jobs_inv 0 (empty_workflow, gen)"
    by (auto simp: jobs_inv_def represents_def empty_workflow_def dual_chain_deps_def
        intro!: exI[of _ "[]"] simp: layout_ok_def)
  have "jobs_inv num_jobs (wfl, gen')"
    by (rule for_each_upt_invariant[where P = jobs_inv,
          OF _ assms[unfolded fill_streaming_workflow_def] j0])
       (auto intro: job_body_inv)
  then show ?thesis by (auto simp: jobs_inv_def)
qed

lemma in_dual_chain_deps:
  "e \<in> set (dual_chain_deps layout) \<longleftrightarrow> (\<exists>i < length layout. e \<in> set (block_deps layout i))"
  by (auto simp: dual_chain_deps_def)

lemma in_block_deps:
  "(p, c) \<in> set (block_deps layout i) \<longleftrightarrow>
     (c = 2 * i + 1 \<and> p = 2 * i)
     \<or> (linked layout i \<and> ((c = 2 * i \<and> p = 2 * i - 2) \<or> (c = 2 * i + 1 \<and> p = 2 * i - 1)))"
  by (auto simp: block_deps_def)

lemma dual_chain_deps_forward:
  assumes "(p, c) \<in> set (dual_chain_deps layout)"
  shows "p < c \<and> c < 2 * length layout"
proof -
  from assms obtain i where i: "i < length layout" and e: "(p, c) \<in> set (block_deps layout i)"
    by (auto simp: in_dual_chain_deps)
  from e have "p < c \<and> c \<le> 2 * i + 1"
    by (auto simp: in_block_deps linked_def)
  with i show ?thesis by simp
qed

lemma compute_task_predecessors:
  assumes "i < length layout"
  shows "{p. (p, 2 * i + 1) \<in> set (dual_chain_deps layout)} =
           {2 * i} \<union> (if linked layout i then {2 * i - 1} else {})"
proof -
  have "(p, 2 * i + 1) \<in> set (block_deps layout i') \<longleftrightarrow>
          i' = i \<and> (p = 2 * i \<or> (linked layout i \<and> p = 2 * i - 1))" for p i'
  proof (cases "i' = i")
    case True
    then show ?thesis by (auto simp: in_block_deps)
  next
    case False
    then have "2 * i + 1 \<noteq> 2 * i' + 1" and "2 * i + 1 \<noteq> 2 * i'" by presburger+
    with False show ?thesis by (simp add: in_block_deps)
  qed
  with assms show ?thesis by (auto simp: in_dual_chain_deps)
qed

lemma linked_by_block:
  assumes "layout_ok layout" and "i < length layout" and "layout ! i = (j, f, b)"
  shows "linked layout i \<longleftrightarrow> 0 < b \<or> (b = 0 \<and> 0 < i \<and> fst (layout ! (i - 1)) = j)"
  using assms(1)[unfolded layout_ok_def, rule_format, OF assms(2)] assms(3)
  by (auto simp: linked_def)

lemma predecessors_eq:
  "predecessors wfl c = {p. (p, c) \<in> set (wf_deps wfl)}"
  by (auto simp: predecessors_def image_iff)

lemma dual_chain_preds_eq:
  assumes "represents layout wfl" and "layout_ok layout" and "i < length layout"
  shows "predecessors wfl (2 * i + 1) = dual_chain_preds layout i"
proof -
  obtain j f b where blk: "layout ! i = (j, f, b)" by (cases "layout ! i") auto
  have d: "wf_deps wfl = dual_chain_deps layout" using assms(1) by (simp add: represents_def)
  have "0 < i \<Longrightarrow> 2 * (i - 1) + 1 = 2 * i - 1" by simp
  moreover have "0 < b \<Longrightarrow> 0 < i"
    using assms(2)[unfolded layout_ok_def, rule_format, OF assms(3)] blk by auto
  ultimately show ?thesis
    unfolding predecessors_eq d compute_task_predecessors[OF assms(3)]
      linked_by_block[OF assms(2,3) blk] dual_chain_preds_def blk
    by auto
qed


lemma scenarioA_run:
  "fill_streaming_workflow empty_workflow 1 1 (\<lambda>g. (1200000, g)) (\<lambda>g. (2000000000, g))
     (\<lambda>g. (2500000, g)) True 1000000 double_min ()
   = Some (Inr (scenarioA_workflow 1200000 2000000000 double_min, ()))"
  by (rule scenarioA_builds) simp_all

text \<open>
  Claim C5.  One turn of the loop over the input files draws the file size \<open>dinsize\<close>
  and adds to the workflow \<open>nblocks\<close> blocks of the block size in use, where
  \<open>nblocks\<close> is the quotient of the file size and the block size cut to a whole number,
  and one more block of size \<open>dinsize - nblocks * block size\<close> when that is not zero.
  These blocks are the files added to the workflow and the input files of the dummy tasks
  added, and their sizes sum to \<open>dinsize\<close>.
\<close>

theorem block_sizes_sum_to_file_size:
  assumes "file_body insize use_blockstreaming block_size_arg dummy_flops j dflops dmem f
             ((wfl, ed, et), gen) = Some (Inr ((wfl', ed', et'), gen'))"
  shows "\<exists>dinsize nblocks blocks.
      sample_while (\<lambda>dinsize. dinsize < 0) insize gen = Some (dinsize, gen')
      \<and> quotient_to_size_t dinsize (if use_blockstreaming then block_size_arg else dinsize) = Some nblocks
      \<and> blocks = map (block_file j f (if use_blockstreaming then block_size_arg else dinsize)) [0..<nblocks]
           @ (if dinsize - real nblocks * (if use_blockstreaming then block_size_arg else dinsize) \<noteq> 0
              then [block_file j f
                      (dinsize - real nblocks * (if use_blockstreaming then block_size_arg else dinsize))
                      nblocks]
              else [])
      \<and> wf_files wfl' = wf_files wfl @ blocks
      \<and> concat (map input_files (wf_tasks wfl')) = concat (map input_files (wf_tasks wfl)) @ blocks
      \<and> sum_list (map file_size blocks) = dinsize"
proof -
  from assms obtain dinsize where
    s: "sample_while (\<lambda>dinsize. dinsize < 0) insize gen = Some (dinsize, gen')"
    and run: "stream_file use_blockstreaming block_size_arg dummy_flops j dflops dmem f dinsize
                (wfl, ed, et) = Inr (wfl', ed', et')"
    by (auto simp: file_body_def split: option.splits sum.splits)
  from stream_file_blocks[OF run] s show ?thesis by blast
qed

theorem block_sizes_sum_to_file_size_witness:
  "\<exists>wfl' ed' et'.
     file_body (\<lambda>g. (2500000, g)) True 1000000 double_min 0 1200000 2000000000 0
       ((empty_workflow, None, None), ()) = Some (Inr ((wfl', ed', et'), ()))
     \<and> map file_size (wf_files wfl') = [1000000, 1000000, 500000]
     \<and> sum_list (map file_size (wf_files wfl')) = 2500000"
proof -
  have s: "sample_while (\<lambda>dinsize. dinsize < 0) (\<lambda>g. (2500000 :: real, g)) () = Some (2500000, ())"
    by (simp add: sample_while_first)
  have q: "quotient_to_size_t 2500000 1000000 = Some 2"
    by (simp add: quotient_to_size_t_def double_to_size_t_def)
  obtain wfl' ed' et' where
    run: "file_body (\<lambda>g. (2500000, g)) True 1000000 double_min 0 1200000 2000000000 0
       ((empty_workflow, None, None), ()) = Some (Inr ((wfl', ed', et'), ()))"
    using q by (simp add: file_body_def s stream_file_def)
      (metis prod.collapse)
  from block_sizes_sum_to_file_size [OF run]
  have "map file_size (wf_files wfl') = [1000000, 1000000, 500000]
     \<and> sum_list (map file_size (wf_files wfl')) = 2500000"
    using s q by (auto simp: empty_workflow_def block_file_def upt_rec)
  with run show ?thesis
    by (intro exI[of _ wfl'] exI[of _ ed'] exI[of _ et']) simp
qed

text \<open>
  Claim C7.  In every workflow that the builder returns from the empty workflow, every
  dependency goes from a task to a task created later, so the workflow has no cycle;
  and the tasks are those of a well-formed layout of blocks, in which the predecessors
  of the task of every block are given by the dual-chain rule: the block's own dummy
  task, the task of the previous block of the same file, and for the first block of a
  file the last task of the previous file of the same job when there is one.
\<close>

theorem dual_chain_rule:
  assumes "fill_streaming_workflow empty_workflow num_jobs infiles_per_task flops mem insize
             use_blockstreaming xrd_block_size dummy_flops gen = Some (Inr (wfl, gen'))"
  shows "(\<forall>(p, c) \<in> set (wf_deps wfl). p < c \<and> c < length (wf_tasks wfl))
       \<and> (\<exists>layout. layout_ok layout
             \<and> map task_id (wf_tasks wfl) = concat (map block_task_ids layout)
             \<and> (\<forall>i < length layout. predecessors wfl (2 * i + 1) = dual_chain_preds layout i))"
proof -
  from fill_streaming_workflow_layout[OF assms] obtain layout where
    r: "represents layout wfl" and ok: "layout_ok layout" by blast
  have len: "length (wf_tasks wfl) = 2 * length layout" using r by (rule represents_length)
  have d: "wf_deps wfl = dual_chain_deps layout" using r by (simp add: represents_def)
  have "\<forall>(p, c) \<in> set (wf_deps wfl). p < c \<and> c < length (wf_tasks wfl)"
    unfolding d len using dual_chain_deps_forward by blast
  moreover have "map task_id (wf_tasks wfl) = concat (map block_task_ids layout)"
    using r by (simp add: represents_def)
  moreover have "\<forall>i < length layout. predecessors wfl (2 * i + 1) = dual_chain_preds layout i"
    using dual_chain_preds_eq[OF r ok] by blast
  ultimately show ?thesis using ok by blast
qed

theorem dual_chain_rule_witness:
  "fill_streaming_workflow empty_workflow 1 1 (\<lambda>g. (1200000, g)) (\<lambda>g. (2000000000, g))
     (\<lambda>g. (2500000, g)) True 1000000 double_min ()
   = Some (Inr (scenarioA_workflow 1200000 2000000000 double_min, ()))
   \<and> list_all (\<lambda>(p, c). p < c \<and> c < 6) (wf_deps (scenarioA_workflow 1200000 2000000000 double_min))
   \<and> (\<exists>layout. layout_ok layout
         \<and> map task_id (wf_tasks (scenarioA_workflow 1200000 2000000000 double_min)) =
             concat (map block_task_ids layout)
         \<and> (\<forall>i < length layout.
               predecessors (scenarioA_workflow 1200000 2000000000 double_min) (2 * i + 1) =
                 dual_chain_preds layout i))
   \<and> predecessors (scenarioA_workflow 1200000 2000000000 double_min) 1 = {0}
   \<and> predecessors (scenarioA_workflow 1200000 2000000000 double_min) 3 = {1, 2}
   \<and> predecessors (scenarioA_workflow 1200000 2000000000 double_min) 5 = {3, 4}"
proof -
  have len: "length (wf_tasks (scenarioA_workflow 1200000 2000000000 double_min)) = 6"
    by (simp add: scenarioA_workflow_def)
  have p: "predecessors (scenarioA_workflow 1200000 2000000000 double_min) 1 = {0}"
    "predecessors (scenarioA_workflow 1200000 2000000000 double_min) 3 = {1, 2}"
    "predecessors (scenarioA_workflow 1200000 2000000000 double_min) 5 = {3, 4}"
    by (auto simp: predecessors_def scenarioA_workflow_def)
  show ?thesis
    using dual_chain_rule [OF scenarioA_run] scenarioA_run p
    by (simp add: len list_all_iff)
qed

section \<open>Properties of the staging of input files\<close>

lemma fold_stageFile: "fold (\<lambda>cache st. stageFile st f cache) caches st = st @ map (\<lambda>c. (f, c)) caches"
  by (induction caches arbitrary: st) (auto simp: stageFile_def)

lemma stage_loop_mono:
  "set staged \<subseteq> set (stage_loop remote caches hitrate incr fs cached staged)"
proof (induction fs arbitrary: cached staged)
  case Nil then show ?case by simp
next
  case (Cons f fs)
  let ?s1 = "stageFile staged f remote"
  let ?s2 = "fold (\<lambda>cache st. stageFile st f cache) caches ?s1"
  have a: "set staged \<subseteq> set ?s1" by (auto simp: stageFile_def)
  have b: "set ?s1 \<subseteq> set ?s2" by (auto simp: fold_stageFile)
  show ?case
  proof (cases "cached \<le> hitrate * incr")
    case True
    then have "stage_loop remote caches hitrate incr (f # fs) cached staged =
        stage_loop remote caches hitrate incr fs (cached + file_size f) ?s2"
      by (simp add: Let_def)
    moreover have "set ?s2 \<subseteq> set (stage_loop remote caches hitrate incr fs (cached + file_size f) ?s2)"
      by (rule Cons.IH)
    ultimately show ?thesis using a b by auto
  next
    case False
    then have "stage_loop remote caches hitrate incr (f # fs) cached staged =
        stage_loop remote caches hitrate incr fs cached ?s1"
      by (simp add: Let_def)
    moreover have "set ?s1 \<subseteq> set (stage_loop remote caches hitrate incr fs cached ?s1)"
      by (rule Cons.IH)
    ultimately show ?thesis using a by auto
  qed
qed

lemma first_file_cached_at_hitrate0:
  assumes "cache \<in> set caches"
  shows "(f, cache) \<in> set (stage_loop remote caches 0 incr (f # fs) 0 staged)"
proof -
  have "(f, cache) \<in> set (fold (\<lambda>cache st. stageFile st f cache) caches (stageFile staged f remote))"
    using assms by (auto simp: fold_stageFile)
  then show ?thesis
    using stage_loop_mono by (fastforce simp: Let_def)
qed

text \<open>
  Claim C2, on the workflow of scenario A with a hit rate of 0, one remote storage and
  one cache storage.  The claim stages no file on a cache; the code stages every block
  on the cache, since the running sum 0 is not above \<open>0 * incr_inputfile_size\<close> when the
  first file of a task is reached.
\<close>

theorem staging_at_hitrate0:
  "stage_input_files (\<lambda>fs g. (fs, g)) [''RemoteStorage''] [''CacheStorage''] 0
     (scenarioA_workflow 1200000 2000000000 double_min) ()
   = Inr ([(\<lparr>file_id = ''infile_0_file_0_block_0'', file_size = 1000000\<rparr>, ''RemoteStorage''),
           (\<lparr>file_id = ''infile_0_file_0_block_0'', file_size = 1000000\<rparr>, ''CacheStorage''),
           (\<lparr>file_id = ''infile_0_file_0_block_1'', file_size = 1000000\<rparr>, ''RemoteStorage''),
           (\<lparr>file_id = ''infile_0_file_0_block_1'', file_size = 1000000\<rparr>, ''CacheStorage''),
           (\<lparr>file_id = ''infile_0_file_0_block_2'', file_size = 500000\<rparr>, ''RemoteStorage''),
           (\<lparr>file_id = ''infile_0_file_0_block_2'', file_size = 500000\<rparr>, ''CacheStorage'')], ())"
  by (simp add: stage_input_files_def stage_task_def scenarioA_workflow_def stageFile_def)

end
